theory Spec2Isabelle
  imports Main "HOL-Library.Sublist"
begin

section \<open>Data model of \<^verbatim>\<open>src/utils/apiCallHelper.ts\<close>\<close>

text \<open>
  The helpers talk to three collaborators that live outside the repository: Playwright's
  \<^verbatim>\<open>APIRequestContext\<close> (the request executor), a Zod schema, and \<^verbatim>\<open>console.log\<close>.
  Their behaviour is a parameter of the model; what the helpers do with them is recorded
  as a list of events, in the order in which the code performs them. An event carries
  the value of the loop variable \<^verbatim>\<open>i\<close> of the attempt it belongs to; a diagnostic line
  carries its text.

  \<^item> \<^verbatim>\<open>APIResponse\<close>: \<open>status\<close> is what \<^verbatim>\<open>response.status()\<close> returns, \<open>json\<close> is the outcome
    of \<^verbatim>\<open>await response.json()\<close>: \<open>Inl\<close> when it throws, \<open>Inr\<close> the parsed value.
  \<^item> A call of \<^verbatim>\<open>request.get\<close>, \<^verbatim>\<open>request.post\<close>, \<^verbatim>\<open>request.put\<close>, \<^verbatim>\<open>request.delete\<close> with the
    options the source passes is a value of \<open>api_call\<close>.
  \<^item> The request context maps the number of the loop iteration (from 0) and the call
    to what the awaited promise does: \<open>Inl\<close> when it rejects, \<open>Inr\<close> the response.
  \<^item> A Zod schema maps the parsed body to \<open>Inl\<close> (\<^verbatim>\<open>parse\<close> throws a ZodError) or to
    \<open>Inr\<close> the value \<^verbatim>\<open>parse\<close> returns, which the helpers discard.
  \<^item> JavaScript numbers that the helpers compare (\<^verbatim>\<open>retryCount\<close>, status codes) are
    integers here; a retry count that is no integer is outside the model.
  \<^item> A thrown value is tagged with where it comes from: the rejected request, the body
    accessor, the schema, or the \<^verbatim>\<open>new Error(...)\<close> after the loop.
\<close>

record 'j api_response =
  status :: int
  response_headers :: "(string \<times> string) list"
  json :: "string + 'j"

datatype 'v api_call =
    Get string "(string \<times> 'v) list" "(string \<times> 'v) list"
  | Post string 'v
  | Put string 'v
  | Delete string

type_synonym ('v, 'j) api_request_context = "nat \<Rightarrow> 'v api_call \<Rightarrow> string + 'j api_response"

type_synonym 'j zod_schema = "'j \<Rightarrow> string + 'j"

datatype thrown =
    ExecutorError string
  | JsonError string
  | ZodError string
  | Error string

datatype 'v event =
    Request nat "'v api_call"
  | JsonCall nat
  | SchemaParse nat
  | ConsoleLog string

type_synonym ('v, 'j) outcome = "(thrown + 'j api_response) \<times> 'v event list"

subsection \<open>Template literals\<close>

definition digit_char :: "nat \<Rightarrow> char" where
  "digit_char d = char_of (48 + d)"

function string_of_nat :: "nat \<Rightarrow> string" where
  "string_of_nat n =
     (if n < 10 then [digit_char n] else string_of_nat (n div 10) @ [digit_char (n mod 10)])"
  by pat_completeness auto
termination
  by (relation "measure (\<lambda>n. n)") auto

declare string_of_nat.simps [simp del]

definition retry_message :: "nat \<Rightarrow> string \<Rightarrow> string" where
  "retry_message i url =
     ''Attempt '' @ string_of_nat (i + 1) @ '' failed. Retrying for '' @ url @ ''...''"

definition max_retries_message :: string where
  "max_retries_message = ''Max retries reached. API call failed.''"

section \<open>The four helpers\<close>

function getAPI_loop ::
  "('v, 'j) api_request_context \<Rightarrow> string \<Rightarrow> int \<Rightarrow> 'j zod_schema \<Rightarrow>
   (string \<times> 'v) list \<Rightarrow> (string \<times> 'v) list \<Rightarrow> int \<Rightarrow> nat \<Rightarrow> ('v, 'j) outcome" where
  "getAPI_loop request url expectedStatusCode expectedSchema parameters headers retryCount i =
     (if int i < retryCount then
        (case request i (Get url parameters headers) of
           Inl exn \<Rightarrow> (Inl (ExecutorError exn), [Request i (Get url parameters headers)])
         | Inr response \<Rightarrow>
             if status response = expectedStatusCode then
               (case json response of
                  Inl exn \<Rightarrow>
                    (Inl (JsonError exn), [Request i (Get url parameters headers), JsonCall i])
                | Inr responseBodyJson \<Rightarrow>
                    (case expectedSchema responseBodyJson of
                       Inl issues \<Rightarrow>
                         (Inl (ZodError issues),
                          [Request i (Get url parameters headers), JsonCall i, SchemaParse i])
                     | Inr _ \<Rightarrow>
                         (Inr response,
                          [Request i (Get url parameters headers), JsonCall i, SchemaParse i])))
             else
               (case getAPI_loop request url expectedStatusCode expectedSchema parameters headers
                       retryCount (Suc i) of
                  (result, events) \<Rightarrow>
                    (result,
                     Request i (Get url parameters headers)
                       # ConsoleLog (retry_message i url) # events)))
      else (Inl (Error max_retries_message), []))"
  by pat_completeness auto
termination
  by (relation "measure (\<lambda>(request, url, expectedStatusCode, expectedSchema, parameters,
        headers, retryCount, i). nat (retryCount - int i))") auto

declare getAPI_loop.simps [simp del]

definition getAPI ::
  "('v, 'j) api_request_context \<Rightarrow> string \<Rightarrow> int \<Rightarrow> 'j zod_schema \<Rightarrow>
   (string \<times> 'v) list option \<Rightarrow> (string \<times> 'v) list option \<Rightarrow> int option \<Rightarrow>
   ('v, 'j) outcome" where
  "getAPI request url expectedStatusCode expectedSchema parameters headers retryCount =
     getAPI_loop request url expectedStatusCode expectedSchema
       (case parameters of None \<Rightarrow> [] | Some p \<Rightarrow> p)
       (case headers of None \<Rightarrow> [] | Some h \<Rightarrow> h)
       (case retryCount of None \<Rightarrow> 5 | Some n \<Rightarrow> n) 0"


text \<open>\<^verbatim>\<open>postAPI\<close>: the same loop around \<^verbatim>\<open>request.post(url, { data: requestBody })\<close>.\<close>

function postAPI_loop ::
  "('v, 'j) api_request_context \<Rightarrow> string \<Rightarrow> 'v \<Rightarrow> int \<Rightarrow> 'j zod_schema \<Rightarrow>
   int \<Rightarrow> nat \<Rightarrow> ('v, 'j) outcome" where
  "postAPI_loop request url requestBody expectedStatusCode expectedSchema retryCount i =
     (if int i < retryCount then
        (case request i (Post url requestBody) of
           Inl exn \<Rightarrow> (Inl (ExecutorError exn), [Request i (Post url requestBody)])
         | Inr response \<Rightarrow>
             if status response = expectedStatusCode then
               (case json response of
                  Inl exn \<Rightarrow> (Inl (JsonError exn), [Request i (Post url requestBody), JsonCall i])
                | Inr responseBodyJson \<Rightarrow>
                    (case expectedSchema responseBodyJson of
                       Inl issues \<Rightarrow>
                         (Inl (ZodError issues),
                          [Request i (Post url requestBody), JsonCall i, SchemaParse i])
                     | Inr _ \<Rightarrow>
                         (Inr response,
                          [Request i (Post url requestBody), JsonCall i, SchemaParse i])))
             else
               (case postAPI_loop request url requestBody expectedStatusCode expectedSchema
                       retryCount (Suc i) of
                  (result, events) \<Rightarrow>
                    (result,
                     Request i (Post url requestBody) # ConsoleLog (retry_message i url) # events)))
      else (Inl (Error max_retries_message), []))"
  by pat_completeness auto
termination
  by (relation "measure (\<lambda>(request, url, requestBody, expectedStatusCode, expectedSchema,
        retryCount, i). nat (retryCount - int i))") auto

declare postAPI_loop.simps [simp del]

definition postAPI ::
  "('v, 'j) api_request_context \<Rightarrow> string \<Rightarrow> 'v \<Rightarrow> int \<Rightarrow> 'j zod_schema \<Rightarrow>
   int option \<Rightarrow> ('v, 'j) outcome" where
  "postAPI request url requestBody expectedStatusCode expectedSchema retryCount =
     postAPI_loop request url requestBody expectedStatusCode expectedSchema
       (case retryCount of None \<Rightarrow> 5 | Some n \<Rightarrow> n) 0"

text \<open>\<^verbatim>\<open>putAPI\<close>: the same loop around \<^verbatim>\<open>request.put(url, { data: requestBody })\<close>.\<close>

function putAPI_loop ::
  "('v, 'j) api_request_context \<Rightarrow> string \<Rightarrow> 'v \<Rightarrow> int \<Rightarrow> 'j zod_schema \<Rightarrow>
   int \<Rightarrow> nat \<Rightarrow> ('v, 'j) outcome" where
  "putAPI_loop request url requestBody expectedStatusCode expectedSchema retryCount i =
     (if int i < retryCount then
        (case request i (Put url requestBody) of
           Inl exn \<Rightarrow> (Inl (ExecutorError exn), [Request i (Put url requestBody)])
         | Inr response \<Rightarrow>
             if status response = expectedStatusCode then
               (case json response of
                  Inl exn \<Rightarrow> (Inl (JsonError exn), [Request i (Put url requestBody), JsonCall i])
                | Inr responseBodyJson \<Rightarrow>
                    (case expectedSchema responseBodyJson of
                       Inl issues \<Rightarrow>
                         (Inl (ZodError issues),
                          [Request i (Put url requestBody), JsonCall i, SchemaParse i])
                     | Inr _ \<Rightarrow>
                         (Inr response,
                          [Request i (Put url requestBody), JsonCall i, SchemaParse i])))
             else
               (case putAPI_loop request url requestBody expectedStatusCode expectedSchema
                       retryCount (Suc i) of
                  (result, events) \<Rightarrow>
                    (result,
                     Request i (Put url requestBody) # ConsoleLog (retry_message i url) # events)))
      else (Inl (Error max_retries_message), []))"
  by pat_completeness auto
termination
  by (relation "measure (\<lambda>(request, url, requestBody, expectedStatusCode, expectedSchema,
        retryCount, i). nat (retryCount - int i))") auto

declare putAPI_loop.simps [simp del]

definition putAPI ::
  "('v, 'j) api_request_context \<Rightarrow> string \<Rightarrow> 'v \<Rightarrow> int \<Rightarrow> 'j zod_schema \<Rightarrow>
   int option \<Rightarrow> ('v, 'j) outcome" where
  "putAPI request url requestBody expectedStatusCode expectedSchema retryCount =
     putAPI_loop request url requestBody expectedStatusCode expectedSchema
       (case retryCount of None \<Rightarrow> 5 | Some n \<Rightarrow> n) 0"

text \<open>\<^verbatim>\<open>deleteAPI\<close>: the same loop around \<^verbatim>\<open>request.delete(url)\<close>.\<close>

function deleteAPI_loop ::
  "('v, 'j) api_request_context \<Rightarrow> string \<Rightarrow> int \<Rightarrow> 'j zod_schema \<Rightarrow>
   int \<Rightarrow> nat \<Rightarrow> ('v, 'j) outcome" where
  "deleteAPI_loop request url expectedStatusCode expectedSchema retryCount i =
     (if int i < retryCount then
        (case request i (Delete url) of
           Inl exn \<Rightarrow> (Inl (ExecutorError exn), [Request i (Delete url)])
         | Inr response \<Rightarrow>
             if status response = expectedStatusCode then
               (case json response of
                  Inl exn \<Rightarrow> (Inl (JsonError exn), [Request i (Delete url), JsonCall i])
                | Inr responseBodyJson \<Rightarrow>
                    (case expectedSchema responseBodyJson of
                       Inl issues \<Rightarrow>
                         (Inl (ZodError issues),
                          [Request i (Delete url), JsonCall i, SchemaParse i])
                     | Inr _ \<Rightarrow>
                         (Inr response,
                          [Request i (Delete url), JsonCall i, SchemaParse i])))
             else
               (case deleteAPI_loop request url expectedStatusCode expectedSchema
                       retryCount (Suc i) of
                  (result, events) \<Rightarrow>
                    (result,
                     Request i (Delete url) # ConsoleLog (retry_message i url) # events)))
      else (Inl (Error max_retries_message), []))"
  by pat_completeness auto
termination
  by (relation "measure (\<lambda>(request, url, expectedStatusCode, expectedSchema,
        retryCount, i). nat (retryCount - int i))") auto

declare deleteAPI_loop.simps [simp del]

definition deleteAPI ::
  "('v, 'j) api_request_context \<Rightarrow> string \<Rightarrow> int \<Rightarrow> 'j zod_schema \<Rightarrow>
   int option \<Rightarrow> ('v, 'j) outcome" where
  "deleteAPI request url expectedStatusCode expectedSchema retryCount =
     deleteAPI_loop request url expectedStatusCode expectedSchema
       (case retryCount of None \<Rightarrow> 5 | Some n \<Rightarrow> n) 0"


section \<open>\<^verbatim>\<open>createRandomUsersRequestBody\<close>\<close>

text \<open>
  The Faker library is outside the repository. Its generators are a parameter: each takes
  the generator's state and returns a value and the next state;
  \<open>number_int min max\<close> stands for \<^verbatim>\<open>faker.number.int({ min, max })\<close>.
  The fields of the object literal are evaluated in the order in which they are written.
\<close>

record 's faker =
  number_int :: "int \<Rightarrow> int \<Rightarrow> 's \<Rightarrow> int \<times> 's"
  string_uuid :: "'s \<Rightarrow> string \<times> 's"
  person_firstName :: "'s \<Rightarrow> string \<times> 's"
  person_lastName :: "'s \<Rightarrow> string \<times> 's"
  internet_email :: "'s \<Rightarrow> string \<times> 's"
  internet_password :: "'s \<Rightarrow> string \<times> 's"
  phone_number :: "'s \<Rightarrow> string \<times> 's"

record user_request_body =
  id_field :: int
  username :: string
  firstName :: string
  lastName :: string
  email :: string
  password :: string
  phone :: string
  userStatus :: int

definition username_prefix :: string where
  "username_prefix = ''TestUserName-test-automation-delete-me-''"

definition userRequestBody :: "'s faker \<Rightarrow> 's \<Rightarrow> user_request_body \<times> 's" where
  "userRequestBody fk s0 =
     (case number_int fk 1 100000 s0 of (v_id, s1) \<Rightarrow>
      case string_uuid fk s1 of (v_uuid, s2) \<Rightarrow>
      case person_firstName fk s2 of (v_first, s3) \<Rightarrow>
      case person_lastName fk s3 of (v_last, s4) \<Rightarrow>
      case internet_email fk s4 of (v_email, s5) \<Rightarrow>
      case internet_password fk s5 of (v_password, s6) \<Rightarrow>
      case phone_number fk s6 of (v_phone, s7) \<Rightarrow>
      case number_int fk 0 10 s7 of (v_status, s8) \<Rightarrow>
        (\<lparr>id_field = v_id, username = username_prefix @ v_uuid, firstName = v_first,
          lastName = v_last, email = v_email, password = v_password, phone = v_phone,
          userStatus = v_status\<rparr>, s8))"

function createRandomUsers_loop ::
  "'s faker \<Rightarrow> int \<Rightarrow> nat \<Rightarrow> user_request_body list \<Rightarrow> 's \<Rightarrow> user_request_body list \<times> 's" where
  "createRandomUsers_loop fk amountOfUsers i usersArray s =
     (if int i < amountOfUsers then
        (case userRequestBody fk s of
           (body, s') \<Rightarrow> createRandomUsers_loop fk amountOfUsers (Suc i) (usersArray @ [body]) s')
      else (usersArray, s))"
  by pat_completeness auto
termination
  by (relation "measure (\<lambda>(fk, amountOfUsers, i, usersArray, s). nat (amountOfUsers - int i))")
    auto

declare createRandomUsers_loop.simps [simp del]

definition createRandomUsersRequestBody ::
  "'s faker \<Rightarrow> int \<Rightarrow> 's \<Rightarrow> user_request_body list \<times> 's" where
  "createRandomUsersRequestBody fk amountOfUsers s = createRandomUsers_loop fk amountOfUsers 0 [] s"

text \<open>
  The contract of \<^verbatim>\<open>faker.number.int\<close> that the bounds of the generated fields rest on:
  with \<open>min \<le> max\<close> the result lies between them.
\<close>

definition number_int_in_range :: "'s faker \<Rightarrow> bool" where
  "number_int_in_range fk \<longleftrightarrow>
     (\<forall>lo hi s. lo \<le> hi \<longrightarrow> lo \<le> fst (number_int fk lo hi s) \<and> fst (number_int fk lo hi s) \<le> hi)"

section \<open>The operation of the specification\<close>

text \<open>
  The specification describes one operation, parameterised by the method variant: a
  state \<open>ATTEMPTING\<close> with a budget of remaining attempts, and the terminal states
  \<open>SUCCEEDED\<close>, \<open>FAILED\<close> and \<open>EXHAUSTED\<close>. This definition follows those words, by
  recursion on the remaining budget; \<open>issued\<close> counts the attempts made so far. Where
  the specification leaves the choice open (an exception of the executor or of the body
  accessor), the operation lets the exception through. It is compared with the four loops
  of the source below.
\<close>

fun call_url :: "'v api_call \<Rightarrow> string" where
  "call_url (Get url parameters headers) = url"
| "call_url (Post url requestBody) = url"
| "call_url (Put url requestBody) = url"
| "call_url (Delete url) = url"

fun attempting ::
  "('v, 'j) api_request_context \<Rightarrow> 'v api_call \<Rightarrow> int \<Rightarrow> 'j zod_schema \<Rightarrow> nat \<Rightarrow> nat \<Rightarrow>
   ('v, 'j) outcome" where
  "attempting exec call expected schema issued 0 = (Inl (Error max_retries_message), [])"
| "attempting exec call expected schema issued (Suc remaining) =
     (case exec issued call of
        Inl exn \<Rightarrow> (Inl (ExecutorError exn), [Request issued call])
      | Inr response \<Rightarrow>
          if status response = expected then
            (case json response of
               Inl exn \<Rightarrow> (Inl (JsonError exn), [Request issued call, JsonCall issued])
             | Inr body \<Rightarrow>
                 (case schema body of
                    Inl issues \<Rightarrow>
                      (Inl (ZodError issues),
                       [Request issued call, JsonCall issued, SchemaParse issued])
                  | Inr _ \<Rightarrow>
                      (Inr response, [Request issued call, JsonCall issued, SchemaParse issued])))
          else
            (case attempting exec call expected schema (Suc issued) remaining of
               (result, events) \<Rightarrow>
                 (result,
                  Request issued call # ConsoleLog (retry_message issued (call_url call))
                    # events)))"

definition retryingVerifiedCall ::
  "('v, 'j) api_request_context \<Rightarrow> 'v api_call \<Rightarrow> int \<Rightarrow> 'j zod_schema \<Rightarrow> int option \<Rightarrow>
   ('v, 'j) outcome" where
  "retryingVerifiedCall exec call expected schema maxAttempts =
     attempting exec call expected schema 0
       (nat (case maxAttempts of None \<Rightarrow> 5 | Some n \<Rightarrow> n))"

section \<open>Observations on a run\<close>

fun is_request :: "'v event \<Rightarrow> bool" where
  "is_request (Request i call) = True"
| "is_request _ = False"

definition requests_issued :: "'v event list \<Rightarrow> nat" where
  "requests_issued events = length (filter is_request events)"

fun console_line :: "'v event \<Rightarrow> string list" where
  "console_line (ConsoleLog line) = [line]"
| "console_line _ = []"

definition console_output :: "'v event list \<Rightarrow> string list" where
  "console_output events = concat (map console_line events)"

text \<open>What attempt \<open>i\<close> observes: a response whose status code is or is not the expected one.\<close>

definition status_matches :: "('v, 'j) api_request_context \<Rightarrow> 'v api_call \<Rightarrow> int \<Rightarrow> nat \<Rightarrow> bool" where
  "status_matches exec call expected i =
     (case exec i call of Inl exn \<Rightarrow> False | Inr response \<Rightarrow> status response = expected)"

definition status_differs :: "('v, 'j) api_request_context \<Rightarrow> 'v api_call \<Rightarrow> int \<Rightarrow> nat \<Rightarrow> bool" where
  "status_differs exec call expected i =
     (case exec i call of Inl exn \<Rightarrow> False | Inr response \<Rightarrow> status response \<noteq> expected)"

text \<open>
  An invocation of one of the four helpers, with the arguments that differ between them;
  \<open>None\<close> is an optional argument that the caller leaves out. \<open>helper\<close> runs the
  invocation, \<open>request_of\<close> is the request that the invoked helper sends on every attempt.
\<close>

datatype 'v helper_call =
    GetAPI string "(string \<times> 'v) list option" "(string \<times> 'v) list option"
  | PostAPI string 'v
  | PutAPI string 'v
  | DeleteAPI string

fun helper ::
  "('v, 'j) api_request_context \<Rightarrow> 'v helper_call \<Rightarrow> int \<Rightarrow> 'j zod_schema \<Rightarrow> int option \<Rightarrow>
   ('v, 'j) outcome" where
  "helper request (GetAPI url parameters headers) expectedStatusCode expectedSchema retryCount =
     getAPI request url expectedStatusCode expectedSchema parameters headers retryCount"
| "helper request (PostAPI url requestBody) expectedStatusCode expectedSchema retryCount =
     postAPI request url requestBody expectedStatusCode expectedSchema retryCount"
| "helper request (PutAPI url requestBody) expectedStatusCode expectedSchema retryCount =
     putAPI request url requestBody expectedStatusCode expectedSchema retryCount"
| "helper request (DeleteAPI url) expectedStatusCode expectedSchema retryCount =
     deleteAPI request url expectedStatusCode expectedSchema retryCount"

fun request_of :: "'v helper_call \<Rightarrow> 'v api_call" where
  "request_of (GetAPI url parameters headers) =
     Get url (case parameters of None \<Rightarrow> [] | Some p \<Rightarrow> p)
       (case headers of None \<Rightarrow> [] | Some h \<Rightarrow> h)"
| "request_of (PostAPI url requestBody) = Post url requestBody"
| "request_of (PutAPI url requestBody) = Put url requestBody"
| "request_of (DeleteAPI url) = Delete url"

text \<open>
  The events of \<open>k\<close> consecutive attempts, from attempt \<open>i\<close> on, that each end in the
  diagnostic line: the request, then the line.
\<close>

definition failed_attempts :: "'v api_call \<Rightarrow> nat \<Rightarrow> nat \<Rightarrow> 'v event list" where
  "failed_attempts call i k =
     concat (map (\<lambda>j. [Request j call, ConsoleLog (retry_message j (call_url call))])
       [i..<i + k])"

text \<open>The attempt bound of an invocation: the retry count, or its default.\<close>

definition attempt_bound :: "int option \<Rightarrow> int" where
  "attempt_bound retryCount = (case retryCount of None \<Rightarrow> 5 | Some n \<Rightarrow> n)"

section \<open>Concrete executors and schemas\<close>

text \<open>
  The response body of the pet store, \<^verbatim>\<open>{ code: 200, type: "unknown", message: ... }\<close>, as
  a list of fields; a schema that accepts exactly the body with a given literal message;
  and executors for the scenarios of the specification: one that answers 500 twice and
  then 200, one that always answers 404, one that answers 200 with another message than
  the schema asks for, and one whose second request is rejected by the network.
\<close>

type_synonym json_object = "(string \<times> string) list"

definition api_response_body :: "string \<Rightarrow> json_object" where
  "api_response_body message =
     [(''code'', ''200''), (''type'', ''unknown''), (''message'', message)]"

definition literal_message_schema :: "string \<Rightarrow> json_object zod_schema" where
  "literal_message_schema message body =
     (if body = api_response_body message then Inr body else Inl ''Invalid literal value'')"

definition respond :: "int \<Rightarrow> string \<Rightarrow> json_object api_response" where
  "respond code message =
     \<lparr>status = code, response_headers = [], json = Inr (api_response_body message)\<rparr>"

definition flaky_executor :: "(string, json_object) api_request_context" where
  "flaky_executor i call =
     (if i < 2 then Inr (respond 500 ''error'') else Inr (respond 200 ''12345''))"

definition not_found_executor :: "(string, json_object) api_request_context" where
  "not_found_executor i call = Inr (respond 404 ''not found'')"

definition wrong_message_executor :: "(string, json_object) api_request_context" where
  "wrong_message_executor i call = Inr (respond 200 ''wrong-value'')"

definition dropping_executor :: "(string, json_object) api_request_context" where
  "dropping_executor i call =
     (if i < 1 then Inr (respond 500 ''error'') else Inl ''ECONNRESET'')"

text \<open>An executor that answers 404 four times and whose fifth request is rejected.\<close>

definition late_dropping_executor :: "(string, json_object) api_request_context" where
  "late_dropping_executor i call =
     (if i < 4 then Inr (respond 404 ''not found'') else Inl ''ECONNRESET'')"

text \<open>A Faker whose state is a counter: every generator consumes one number.\<close>

definition counting_faker :: "nat faker" where
  "counting_faker =
     \<lparr>number_int = (\<lambda>lo hi s. (lo + int s mod (hi - lo + 1), Suc s)),
      string_uuid = (\<lambda>s. (string_of_nat s, Suc s)),
      person_firstName = (\<lambda>s. (''Ada'', Suc s)),
      person_lastName = (\<lambda>s. (''Lovelace'', Suc s)),
      internet_email = (\<lambda>s. (''ada@example.com'', Suc s)),
      internet_password = (\<lambda>s. (''secret'', Suc s)),
      phone_number = (\<lambda>s. (''555-0100'', Suc s))\<rparr>"

section \<open>The loops of the source and the operation of the specification agree\<close>

lemma getAPI_loop_attempting:
  "getAPI_loop request url expected schema parameters headers retryCount i =
   attempting request (Get url parameters headers) expected schema i (nat (retryCount - int i))"
proof (induction request url expected schema parameters headers retryCount i
    rule: getAPI_loop.induct)
  case (1 request url expected schema parameters headers retryCount i)
  show ?case
  proof (cases "int i < retryCount")
    case False
    then show ?thesis by (simp add: getAPI_loop.simps [of _ _ _ _ _ _ retryCount i])
  next
    case True
    then have budget: "nat (retryCount - int i) = Suc (nat (retryCount - int (Suc i)))"
      by simp
    show ?thesis
      unfolding getAPI_loop.simps [of _ _ _ _ _ _ retryCount i] budget
      using True "1.IH"
      by (simp split: sum.splits)
  qed
qed


lemma postAPI_loop_attempting:
  "postAPI_loop request url requestBody expected schema retryCount i =
   attempting request (Post url requestBody) expected schema i (nat (retryCount - int i))"
proof (induction request url requestBody expected schema retryCount i rule: postAPI_loop.induct)
  case (1 request url requestBody expected schema retryCount i)
  show ?case
  proof (cases "int i < retryCount")
    case False
    then show ?thesis by (simp add: postAPI_loop.simps [of _ _ _ _ _ retryCount i])
  next
    case True
    then have budget: "nat (retryCount - int i) = Suc (nat (retryCount - int (Suc i)))"
      by simp
    show ?thesis
      unfolding postAPI_loop.simps [of _ _ _ _ _ retryCount i] budget
      using True "1.IH"
      by (simp split: sum.splits)
  qed
qed

lemma putAPI_loop_attempting:
  "putAPI_loop request url requestBody expected schema retryCount i =
   attempting request (Put url requestBody) expected schema i (nat (retryCount - int i))"
proof (induction request url requestBody expected schema retryCount i rule: putAPI_loop.induct)
  case (1 request url requestBody expected schema retryCount i)
  show ?case
  proof (cases "int i < retryCount")
    case False
    then show ?thesis by (simp add: putAPI_loop.simps [of _ _ _ _ _ retryCount i])
  next
    case True
    then have budget: "nat (retryCount - int i) = Suc (nat (retryCount - int (Suc i)))"
      by simp
    show ?thesis
      unfolding putAPI_loop.simps [of _ _ _ _ _ retryCount i] budget
      using True "1.IH"
      by (simp split: sum.splits)
  qed
qed

lemma deleteAPI_loop_attempting:
  "deleteAPI_loop request url expected schema retryCount i =
   attempting request (Delete url) expected schema i (nat (retryCount - int i))"
proof (induction request url expected schema retryCount i rule: deleteAPI_loop.induct)
  case (1 request url expected schema retryCount i)
  show ?case
  proof (cases "int i < retryCount")
    case False
    then show ?thesis by (simp add: deleteAPI_loop.simps [of _ _ _ _ retryCount i])
  next
    case True
    then have budget: "nat (retryCount - int i) = Suc (nat (retryCount - int (Suc i)))"
      by simp
    show ?thesis
      unfolding deleteAPI_loop.simps [of _ _ _ _ retryCount i] budget
      using True "1.IH"
      by (simp split: sum.splits)
  qed
qed

lemma helper_retryingVerifiedCall:
  "helper request h expected schema retryCount =
   retryingVerifiedCall request (request_of h) expected schema retryCount"
  by (cases h)
    (simp_all add: getAPI_def postAPI_def putAPI_def deleteAPI_def retryingVerifiedCall_def
      getAPI_loop_attempting postAPI_loop_attempting putAPI_loop_attempting
      deleteAPI_loop_attempting)

section \<open>Attempts that end in the diagnostic line\<close>

lemma failed_attempts_0 [simp]: "failed_attempts call i 0 = []"
  by (simp add: failed_attempts_def)

lemma failed_attempts_Suc:
  "failed_attempts call i (Suc k) =
   Request i call # ConsoleLog (retry_message i (call_url call)) # failed_attempts call (Suc i) k"
  by (simp add: failed_attempts_def upt_conv_Cons del: upt_Suc)

lemma requests_issued_append:
  "requests_issued (xs @ ys) = requests_issued xs + requests_issued ys"
  by (simp add: requests_issued_def)

lemma console_output_append:
  "console_output (xs @ ys) = console_output xs @ console_output ys"
  by (simp add: console_output_def)

lemma requests_issued_failed_attempts: "requests_issued (failed_attempts call i k) = k"
  by (induction k arbitrary: i) (simp_all add: failed_attempts_Suc requests_issued_def)

lemma console_output_failed_attempts:
  "console_output (failed_attempts call i k) =
   map (\<lambda>j. retry_message j (call_url call)) [i..<i + k]"
  by (induction k arbitrary: i)
    (simp_all add: failed_attempts_Suc console_output_def upt_conv_Cons del: upt_Suc)

text \<open>
  While the status code differs from the expected one, the loop logs and goes on: \<open>k\<close> such
  attempts leave the rest of the run to the remaining budget.
\<close>

lemma attempting_skip:
  "\<forall>j<k. status_differs exec call expected (i + j) \<Longrightarrow> k \<le> n \<Longrightarrow>
   attempting exec call expected schema i n =
     (fst (attempting exec call expected schema (i + k) (n - k)),
      failed_attempts call i k @ snd (attempting exec call expected schema (i + k) (n - k)))"
proof (induction k arbitrary: i n)
  case 0
  then show ?case by simp
next
  case (Suc k)
  from Suc.prems(2) obtain m where n: "n = Suc m" and km: "k \<le> m"
    by (cases n) auto
  from Suc.prems(1) have here: "status_differs exec call expected i"
    by (metis add.right_neutral zero_less_Suc)
  from Suc.prems(1) have later: "\<forall>j<k. status_differs exec call expected (Suc i + j)"
    by (metis Suc_less_eq add_Suc_right add_Suc)
  from here obtain response where r: "exec i call = Inr response" "status response \<noteq> expected"
    by (auto simp: status_differs_def split: sum.splits)
  show ?case
    unfolding n using r Suc.IH [OF later km]
    by (simp add: failed_attempts_Suc split: prod.splits)
qed

text \<open>A run never issues more requests than its budget.\<close>

lemma attempting_requests_le:
  "requests_issued (snd (attempting exec call expected schema i n)) \<le> n"
proof (induction n arbitrary: i)
  case 0
  then show ?case by (simp add: requests_issued_def)
next
  case (Suc n)
  obtain result events where rest:
    "attempting exec call expected schema (Suc i) n = (result, events)"
    by (cases "attempting exec call expected schema (Suc i) n")
  from Suc.IH [of "Suc i"] rest have "requests_issued events \<le> n"
    by simp
  with rest show ?case
    by (auto simp: requests_issued_def split: sum.splits)
qed

lemma helper_attempting:
  "helper request h expected schema retryCount =
   attempting request (request_of h) expected schema 0 (nat (attempt_bound retryCount))"
  by (simp add: helper_retryingVerifiedCall retryingVerifiedCall_def attempt_bound_def)

text \<open>The run up to attempt \<open>k\<close> (counted from 1), when the attempts before it all differ.\<close>

lemma attempting_reaches:
  assumes "1 \<le> k" and "int k \<le> N"
    and "\<forall>j<k - 1. status_differs exec call expected j"
  shows "attempting exec call expected schema 0 (nat N) =
     (fst (attempting exec call expected schema (k - 1) (Suc (nat N - k))),
      failed_attempts call 0 (k - 1)
        @ snd (attempting exec call expected schema (k - 1) (Suc (nat N - k))))"
proof -
  from assms(1,2) have le: "k - 1 \<le> nat N" and rest: "nat N - (k - 1) = Suc (nat N - k)"
    by linarith+
  from assms(3) have "\<forall>j<k - 1. status_differs exec call expected (0 + j)"
    by simp
  from attempting_skip [OF this le, of schema] show ?thesis
    by (simp only: rest add_0)
qed

section \<open>What a run parses, validates and prints\<close>

lemma attempting_body_use:
  "JsonCall j \<in> set (snd (attempting exec call expected schema i n)) \<or>
   SchemaParse j \<in> set (snd (attempting exec call expected schema i n)) \<Longrightarrow>
   status_matches exec call expected j \<and>
   Request j call \<in> set (snd (attempting exec call expected schema i n))"
proof (induction n arbitrary: i)
  case 0
  then show ?case by simp
next
  case (Suc n)
  show ?case
  proof (cases "status_differs exec call expected i")
    case True
    then obtain response where r: "exec i call = Inr response" "status response \<noteq> expected"
      by (auto simp: status_differs_def split: sum.splits)
    with Suc.prems
    have "JsonCall j \<in> set (snd (attempting exec call expected schema (Suc i) n)) \<or>
          SchemaParse j \<in> set (snd (attempting exec call expected schema (Suc i) n))"
      by (auto split: prod.splits)
    from Suc.IH [OF this] r show ?thesis
      by (auto split: prod.splits)
  next
    case False
    with Suc.prems show ?thesis
      by (auto simp: status_differs_def status_matches_def split: sum.splits if_splits)
  qed
qed

lemma status_differs_not_matches:
  "status_differs exec call expected j \<Longrightarrow> \<not> status_matches exec call expected j"
  by (auto simp: status_differs_def status_matches_def split: sum.splits)

lemma attempting_console_output:
  "console_output (snd (attempting exec call expected schema i n)) =
   map (\<lambda>j. retry_message j (call_url call))
     (filter (status_differs exec call expected)
       [i..<i + requests_issued (snd (attempting exec call expected schema i n))])"
proof (induction n arbitrary: i)
  case 0
  then show ?case by (simp add: console_output_def requests_issued_def)
next
  case (Suc n)
  show ?case
  proof (cases "status_differs exec call expected i")
    case True
    then obtain response where r: "exec i call = Inr response" "status response \<noteq> expected"
      by (auto simp: status_differs_def split: sum.splits)
    obtain result events where rest: "attempting exec call expected schema (Suc i) n = (result, events)"
      by (cases "attempting exec call expected schema (Suc i) n")
    have run: "snd (attempting exec call expected schema i (Suc n)) =
        Request i call # ConsoleLog (retry_message i (call_url call)) # events"
      using r rest by simp
    have count: "requests_issued (Request i call # ConsoleLog (retry_message i (call_url call)) # events)
        = Suc (requests_issued events)"
      by (simp add: requests_issued_def)
    have lines: "console_output (Request i call # ConsoleLog (retry_message i (call_url call)) # events)
        = retry_message i (call_url call) # console_output events"
      by (simp add: console_output_def)
    from Suc.IH [of "Suc i"] rest
    have ih: "console_output events =
        map (\<lambda>j. retry_message j (call_url call))
          (filter (status_differs exec call expected) [Suc i..<Suc i + requests_issued events])"
      by simp
    show ?thesis
      unfolding run count lines ih using True
      by (simp add: upt_conv_Cons del: upt_Suc)
  next
    case False
    then show ?thesis
      by (auto simp: status_differs_def console_output_def requests_issued_def
          split: sum.splits)
  qed
qed

section \<open>Runs of the concrete executors\<close>

lemma flaky_run:
  "snd (helper flaky_executor (GetAPI ''/user/login'' None None) 200
          (literal_message_schema ''12345'') None) =
   [Request 0 (Get ''/user/login'' [] []),
    ConsoleLog (retry_message 0 ''/user/login''),
    Request 1 (Get ''/user/login'' [] []),
    ConsoleLog (retry_message 1 ''/user/login''),
    Request 2 (Get ''/user/login'' [] []), JsonCall 2, SchemaParse 2]"
  by (simp add: getAPI_def getAPI_loop.simps flaky_executor_def respond_def
      literal_message_schema_def)

lemma retry_message_texts:
  "retry_message 0 ''/user/login'' = ''Attempt 1 failed. Retrying for /user/login...''"
  "retry_message (Suc 0) ''/user/login'' = ''Attempt 2 failed. Retrying for /user/login...''"
  by code_simp+

section \<open>Generated users\<close>

lemma userRequestBody_fields:
  assumes "number_int_in_range fk"
  shows "1 \<le> id_field (fst (userRequestBody fk s)) \<and>
         id_field (fst (userRequestBody fk s)) \<le> 100000 \<and>
         0 \<le> userStatus (fst (userRequestBody fk s)) \<and>
         userStatus (fst (userRequestBody fk s)) \<le> 10 \<and>
         prefix username_prefix (username (fst (userRequestBody fk s)))"
proof -
  have range: "lo \<le> fst (number_int fk lo hi t) \<and> fst (number_int fk lo hi t) \<le> hi"
    if "lo \<le> hi" for lo hi t
    using assms that unfolding number_int_in_range_def by blast
  have ids: "1 \<le> a \<and> a \<le> 100000" if "number_int fk 1 100000 t = (a, t')" for a t t'
    using range [of 1 100000 t] that by simp
  have statuses: "0 \<le> a \<and> a \<le> 10" if "number_int fk 0 10 t = (a, t')" for a t t'
    using range [of 0 10 t] that by simp
  show ?thesis
    unfolding userRequestBody_def
    by (auto split: prod.splits dest: ids statuses)
qed

lemma createRandomUsers_loop_length:
  "length (fst (createRandomUsers_loop fk amountOfUsers i usersArray s)) =
   length usersArray + nat (amountOfUsers - int i)"
proof (induction fk amountOfUsers i usersArray s rule: createRandomUsers_loop.induct)
  case (1 fk amountOfUsers i usersArray s)
  show ?case
  proof (cases "int i < amountOfUsers")
    case False
    then show ?thesis
      by (simp add: createRandomUsers_loop.simps [of fk amountOfUsers i])
  next
    case True
    obtain body s' where step: "userRequestBody fk s = (body, s')"
      by (cases "userRequestBody fk s")
    from True have "Suc (nat (amountOfUsers - int (Suc i))) = nat (amountOfUsers - int i)"
      by simp
    with "1.IH" [OF True step [symmetric]] True step show ?thesis
      by (simp add: createRandomUsers_loop.simps [of fk amountOfUsers i])
  qed
qed

lemma createRandomUsers_loop_elements:
  assumes "u \<in> set (fst (createRandomUsers_loop fk amountOfUsers i usersArray s))"
  shows "u \<in> set usersArray \<or> (\<exists>t. u = fst (userRequestBody fk t))"
  using assms
proof (induction fk amountOfUsers i usersArray s rule: createRandomUsers_loop.induct)
  case (1 fk amountOfUsers i usersArray s)
  show ?case
  proof (cases "int i < amountOfUsers")
    case False
    with "1.prems" show ?thesis
      by (simp add: createRandomUsers_loop.simps [of fk amountOfUsers i])
  next
    case True
    obtain body s' where step: "userRequestBody fk s = (body, s')"
      by (cases "userRequestBody fk s")
    from "1.prems" True step
    have "u \<in> set (fst (createRandomUsers_loop fk amountOfUsers (Suc i) (usersArray @ [body]) s'))"
      by (simp add: createRandomUsers_loop.simps [of fk amountOfUsers i])
    from "1.IH" [OF True step [symmetric] this]
    have "u \<in> set usersArray \<or> u = body \<or> (\<exists>t. u = fst (userRequestBody fk t))"
      by auto
    with step show ?thesis
      by (metis fst_conv)
  qed
qed

lemma counting_faker_in_range: "number_int_in_range counting_faker"
proof -
  have "lo \<le> lo + int s mod (hi - lo + 1) \<and> lo + int s mod (hi - lo + 1) \<le> hi"
    if "lo \<le> hi" for lo hi :: int and s :: nat
  proof -
    from that have width: "0 < hi - lo + 1" by simp
    from pos_mod_sign [OF width, of "int s"] pos_mod_bound [OF width, of "int s"]
    show ?thesis by linarith
  qed
  then show ?thesis
    by (simp add: number_int_in_range_def counting_faker_def)
qed

section \<open>The claims\<close>

text \<open>
  In the statements below, attempt \<open>k\<close> is counted from 1 as in the diagnostic line, so
  it is iteration \<open>k - 1\<close> of the loop; \<open>attempt_bound retryCount\<close> is the retry count the
  caller passes, or 5. An attempt is reached only when every attempt before it returned a
  response with another status code than the expected one.
\<close>

text \<open>
  \<^bold>\<open>C1\<close> (as amended). For every attempt bound \<open>N \<ge> 1\<close> and every expected status code: if
  the request executor returns the expected status code for the first time on attempt
  \<open>k \<le> N\<close>, and the body of that response parses as JSON and the schema accepts it, then
  each of the four helpers succeeds, returns exactly that attempt's response, and issues
  exactly \<open>k\<close> requests.
\<close>

theorem first_match_succeeds:
  assumes "1 \<le> k" and "int k \<le> attempt_bound retryCount"
    and "\<forall>j<k - 1. status_differs request (request_of h) expected j"
    and "request (k - 1) (request_of h) = Inr response"
    and "status response = expected"
    and "json response = Inr body"
    and "schema body = Inr parsed"
  shows "fst (helper request h expected schema retryCount) = Inr response \<and>
         requests_issued (snd (helper request h expected schema retryCount)) = k"
  using assms(1,4-7)
  by (simp add: helper_attempting attempting_reaches [OF assms(1-3)]
      requests_issued_append requests_issued_failed_attempts)
    (simp add: requests_issued_def)

theorem first_match_succeeds_witness:
  "(1::nat) \<le> 3 \<and> int 3 \<le> attempt_bound None \<and>
   status_differs flaky_executor (request_of (GetAPI ''/user/login'' None None)) 200 0 \<and>
   status_differs flaky_executor (request_of (GetAPI ''/user/login'' None None)) 200 1 \<and>
   flaky_executor (3 - 1) (request_of (GetAPI ''/user/login'' None None)) = Inr (respond 200 ''12345'') \<and>
   status (respond 200 ''12345'') = 200 \<and>
   json (respond 200 ''12345'') = Inr (api_response_body ''12345'') \<and>
   literal_message_schema ''12345'' (api_response_body ''12345'') = Inr (api_response_body ''12345'') \<and>
   fst (helper flaky_executor (GetAPI ''/user/login'' None None) 200
          (literal_message_schema ''12345'') None) = Inr (respond 200 ''12345'') \<and>
   requests_issued (snd (helper flaky_executor (GetAPI ''/user/login'' None None) 200
          (literal_message_schema ''12345'') None)) = 3"
proof -
  have h1: "(1::nat) \<le> 3" by simp
  have h2: "int 3 \<le> attempt_bound None" by (simp add: attempt_bound_def)
  have h3: "\<forall>j<3 - 1. status_differs flaky_executor
      (request_of (GetAPI ''/user/login'' None None)) 200 j"
    by (simp add: status_differs_def flaky_executor_def respond_def)
  have h4: "flaky_executor (3 - 1) (request_of (GetAPI ''/user/login'' None None)) =
      Inr (respond 200 ''12345'')"
    by (simp add: flaky_executor_def)
  have h5: "status (respond 200 ''12345'') = 200" by (simp add: respond_def)
  have h6: "json (respond 200 ''12345'') = Inr (api_response_body ''12345'')"
    by (simp add: respond_def)
  have h7: "literal_message_schema ''12345'' (api_response_body ''12345'') =
      Inr (api_response_body ''12345'')"
    by (simp add: literal_message_schema_def)
  have d0: "status_differs flaky_executor (request_of (GetAPI ''/user/login'' None None)) 200 0"
    and d1: "status_differs flaky_executor (request_of (GetAPI ''/user/login'' None None)) 200 1"
    using h3 by simp_all
  from first_match_succeeds [where k = 3 and request = flaky_executor
      and schema = "literal_message_schema ''12345''", OF h1 h2 h3 h4 h5 h6 h7]
    h1 h2 d0 d1 h4 h5 h6 h7
  show ?thesis by blast
qed

text \<open>
  Without the condition on the body the statement of C1 fails: the executor answers the
  expected 200 on the first attempt, the schema rejects the body, and \<^verbatim>\<open>getAPI\<close> throws
  the ZodError instead of returning the response.
\<close>

theorem first_match_invalid_body_counterexample:
  "wrong_message_executor 0 (request_of (GetAPI ''/user/login'' None None)) =
     Inr (respond 200 ''wrong-value'') \<and>
   status (respond 200 ''wrong-value'') = 200 \<and>
   fst (helper wrong_message_executor (GetAPI ''/user/login'' None None) 200
          (literal_message_schema ''12345'') (Some 1)) \<noteq> Inr (respond 200 ''wrong-value'') \<and>
   fst (helper wrong_message_executor (GetAPI ''/user/login'' None None) 200
          (literal_message_schema ''12345'') (Some 1)) = Inl (ZodError ''Invalid literal value'')"
  by (simp add: getAPI_def getAPI_loop.simps wrong_message_executor_def respond_def
      literal_message_schema_def api_response_body_def)

text \<open>
  \<^bold>\<open>C2\<close> (as amended). For every attempt bound \<open>N \<ge> 1\<close>: if on each of the \<open>N\<close> attempts the
  request executor returns a response whose status code differs from the expected one,
  each of the four helpers throws, after the loop, an error with the message
  \<^verbatim>\<open>Max retries reached. API call failed.\<close>, and exactly \<open>N\<close> requests were issued: the run
  consists of the \<open>N\<close> failed attempts.
\<close>

theorem exhaustion_after_bound:
  assumes "1 \<le> attempt_bound retryCount"
    and "\<forall>j<nat (attempt_bound retryCount). status_differs request (request_of h) expected j"
  shows "fst (helper request h expected schema retryCount) =
           Inl (Error ''Max retries reached. API call failed.'') \<and>
         snd (helper request h expected schema retryCount) =
           failed_attempts (request_of h) 0 (nat (attempt_bound retryCount)) \<and>
         requests_issued (snd (helper request h expected schema retryCount)) =
           nat (attempt_bound retryCount)"
proof -
  from assms(2)
  have "\<forall>j<nat (attempt_bound retryCount). status_differs request (request_of h) expected (0 + j)"
    by simp
  from attempting_skip [OF this order_refl, of schema] show ?thesis
    by (simp add: helper_attempting requests_issued_failed_attempts max_retries_message_def)
qed

theorem exhaustion_after_bound_witness:
  "1 \<le> attempt_bound None \<and>
   status_differs not_found_executor (request_of (DeleteAPI ''/user/x'')) 200 0 \<and>
   status_differs not_found_executor (request_of (DeleteAPI ''/user/x'')) 200 1 \<and>
   status_differs not_found_executor (request_of (DeleteAPI ''/user/x'')) 200 2 \<and>
   status_differs not_found_executor (request_of (DeleteAPI ''/user/x'')) 200 3 \<and>
   status_differs not_found_executor (request_of (DeleteAPI ''/user/x'')) 200 4 \<and>
   fst (helper not_found_executor (DeleteAPI ''/user/x'') 200 (literal_message_schema ''x'') None) =
     Inl (Error ''Max retries reached. API call failed.'') \<and>
   requests_issued
     (snd (helper not_found_executor (DeleteAPI ''/user/x'') 200 (literal_message_schema ''x'') None)) = 5"
proof -
  have h1: "1 \<le> attempt_bound None" by (simp add: attempt_bound_def)
  have h2: "\<forall>j<nat (attempt_bound None).
      status_differs not_found_executor (request_of (DeleteAPI ''/user/x'')) 200 j"
    by (simp add: status_differs_def not_found_executor_def respond_def)
  have five: "nat (attempt_bound None) = 5" by (simp add: attempt_bound_def)
  have each: "status_differs not_found_executor (request_of (DeleteAPI ''/user/x'')) 200 j" for j
    by (simp add: status_differs_def not_found_executor_def respond_def)
  from exhaustion_after_bound [OF h1 h2, of "literal_message_schema ''x''"] h1 each
  show ?thesis unfolding five by blast
qed

text \<open>
  The statement of C2 fails in two ways. The message of the error is not the text
  \<^verbatim>\<open>max retries reached\<close>: with a bound of one attempt that answers 404, the error that
  \<^verbatim>\<open>getAPI\<close> throws has the message of the source. And an executor that never returns the
  expected status code need not return a response: with a bound of 5, four answers 404
  and a fifth request that is rejected, \<^verbatim>\<open>getAPI\<close> issues 5 requests and throws the
  executor's exception, not the error of exhaustion.
\<close>

theorem exhaustion_counterexample:
  "status_differs not_found_executor (request_of (GetAPI ''/user/logout'' None None)) 200 0 \<and>
   fst (helper not_found_executor (GetAPI ''/user/logout'' None None) 200
          (literal_message_schema ''x'') (Some 1)) \<noteq> Inl (Error ''max retries reached'') \<and>
   fst (helper not_found_executor (GetAPI ''/user/logout'' None None) 200
          (literal_message_schema ''x'') (Some 1)) =
     Inl (Error ''Max retries reached. API call failed.'') \<and>
   requests_issued (snd (helper not_found_executor (GetAPI ''/user/logout'' None None) 200
          (literal_message_schema ''x'') (Some 1))) = 1 \<and>
   \<not> status_matches late_dropping_executor (request_of (GetAPI ''/user/logout'' None None)) 200 0 \<and>
   \<not> status_matches late_dropping_executor (request_of (GetAPI ''/user/logout'' None None)) 200 1 \<and>
   \<not> status_matches late_dropping_executor (request_of (GetAPI ''/user/logout'' None None)) 200 2 \<and>
   \<not> status_matches late_dropping_executor (request_of (GetAPI ''/user/logout'' None None)) 200 3 \<and>
   \<not> status_matches late_dropping_executor (request_of (GetAPI ''/user/logout'' None None)) 200 4 \<and>
   fst (helper late_dropping_executor (GetAPI ''/user/logout'' None None) 200
          (literal_message_schema ''x'') (Some 5)) = Inl (ExecutorError ''ECONNRESET'') \<and>
   requests_issued (snd (helper late_dropping_executor (GetAPI ''/user/logout'' None None) 200
          (literal_message_schema ''x'') (Some 5))) = 5"
  by (simp add: getAPI_def getAPI_loop.simps not_found_executor_def late_dropping_executor_def
      respond_def status_differs_def status_matches_def max_retries_message_def
      requests_issued_def)

text \<open>
  \<^bold>\<open>C3\<close>. For every attempt bound \<open>N \<ge> 1\<close>: if on attempt \<open>k \<le> N\<close> the observed status code
  equals the expected one and the schema rejects the parsed body, the call fails with the
  validation error, and exactly \<open>k\<close> requests were issued.
\<close>

theorem invalid_body_fails_at_once:
  assumes "1 \<le> k" and "int k \<le> attempt_bound retryCount"
    and "\<forall>j<k - 1. status_differs request (request_of h) expected j"
    and "request (k - 1) (request_of h) = Inr response"
    and "status response = expected"
    and "json response = Inr body"
    and "schema body = Inl issues"
  shows "fst (helper request h expected schema retryCount) = Inl (ZodError issues) \<and>
         requests_issued (snd (helper request h expected schema retryCount)) = k"
  using assms(1,4-7)
  by (simp add: helper_attempting attempting_reaches [OF assms(1-3)]
      requests_issued_append requests_issued_failed_attempts)
    (simp add: requests_issued_def)

theorem invalid_body_fails_at_once_witness:
  "(1::nat) \<le> 1 \<and> int 1 \<le> attempt_bound None \<and>
   wrong_message_executor (1 - 1) (request_of (PostAPI ''/user'' ''body'')) =
     Inr (respond 200 ''wrong-value'') \<and>
   status (respond 200 ''wrong-value'') = 200 \<and>
   json (respond 200 ''wrong-value'') = Inr (api_response_body ''wrong-value'') \<and>
   literal_message_schema ''12345'' (api_response_body ''wrong-value'') =
     Inl ''Invalid literal value'' \<and>
   fst (helper wrong_message_executor (PostAPI ''/user'' ''body'') 200
          (literal_message_schema ''12345'') None) = Inl (ZodError ''Invalid literal value'') \<and>
   requests_issued (snd (helper wrong_message_executor (PostAPI ''/user'' ''body'') 200
          (literal_message_schema ''12345'') None)) = 1"
proof -
  have h1: "(1::nat) \<le> 1" by simp
  have h2: "int 1 \<le> attempt_bound None" by (simp add: attempt_bound_def)
  have h3: "\<forall>j<1 - 1. status_differs wrong_message_executor
      (request_of (PostAPI ''/user'' ''body'')) 200 j"
    by simp
  have h4: "wrong_message_executor (1 - 1) (request_of (PostAPI ''/user'' ''body'')) =
      Inr (respond 200 ''wrong-value'')"
    by (simp add: wrong_message_executor_def)
  have h5: "status (respond 200 ''wrong-value'') = 200" by (simp add: respond_def)
  have h6: "json (respond 200 ''wrong-value'') = Inr (api_response_body ''wrong-value'')"
    by (simp add: respond_def)
  have h7: "literal_message_schema ''12345'' (api_response_body ''wrong-value'') =
      Inl ''Invalid literal value''"
    by (simp add: literal_message_schema_def api_response_body_def)
  from invalid_body_fails_at_once [where k = 1 and request = wrong_message_executor
      and schema = "literal_message_schema ''12345''", OF h1 h2 h3 h4 h5 h6 h7]
    h1 h2 h4 h5 h6 h7
  show ?thesis by blast
qed

text \<open>
  \<^bold>\<open>C4\<close>. In every run of a helper, \<^verbatim>\<open>response.json()\<close> and \<^verbatim>\<open>expectedSchema.parse\<close> are
  called only in an attempt that sent its request and observed the expected status code;
  in an attempt whose status code differs, neither is called.
\<close>

theorem body_used_only_on_match:
  "(\<forall>j. JsonCall j \<in> set (snd (helper request h expected schema retryCount)) \<or>
        SchemaParse j \<in> set (snd (helper request h expected schema retryCount)) \<longrightarrow>
        status_matches request (request_of h) expected j \<and>
        Request j (request_of h) \<in> set (snd (helper request h expected schema retryCount))) \<and>
   (\<forall>j. status_differs request (request_of h) expected j \<longrightarrow>
        JsonCall j \<notin> set (snd (helper request h expected schema retryCount)) \<and>
        SchemaParse j \<notin> set (snd (helper request h expected schema retryCount)))"
  unfolding helper_attempting
  using attempting_body_use [of _ request "request_of h" expected schema 0]
    status_differs_not_matches [of request "request_of h" expected]
  by blast

theorem body_used_only_on_match_witness:
  "JsonCall 2 \<in> set (snd (helper flaky_executor (GetAPI ''/user/login'' None None) 200
          (literal_message_schema ''12345'') None)) \<and>
   status_matches flaky_executor (request_of (GetAPI ''/user/login'' None None)) 200 2 \<and>
   status_differs flaky_executor (request_of (GetAPI ''/user/login'' None None)) 200 0 \<and>
   JsonCall 0 \<notin> set (snd (helper flaky_executor (GetAPI ''/user/login'' None None) 200
          (literal_message_schema ''12345'') None)) \<and>
   SchemaParse 0 \<notin> set (snd (helper flaky_executor (GetAPI ''/user/login'' None None) 200
          (literal_message_schema ''12345'') None))"
proof -
  have parsed: "JsonCall 2 \<in> set (snd (helper flaky_executor (GetAPI ''/user/login'' None None)
      200 (literal_message_schema ''12345'') None))"
    unfolding flaky_run by simp
  have differs: "status_differs flaky_executor
      (request_of (GetAPI ''/user/login'' None None)) 200 0"
    by (simp add: status_differs_def flaky_executor_def respond_def)
  from body_used_only_on_match [of flaky_executor "GetAPI ''/user/login'' None None" 200
      "literal_message_schema ''12345''" None] parsed differs
  show ?thesis by blast
qed

text \<open>
  \<^bold>\<open>C5\<close>. In every run of a helper, the lines printed are, in order, the line
  \<^verbatim>\<open>Attempt <j + 1> failed. Retrying for <url>...\<close> for exactly the attempts \<open>j\<close> made whose
  status code differs from the expected one: one line for each of them, none for any
  other attempt.
\<close>

theorem one_line_per_differing_attempt:
  "console_output (snd (helper request h expected schema retryCount)) =
   map (\<lambda>j. retry_message j (call_url (request_of h)))
     (filter (status_differs request (request_of h) expected)
       [0..<requests_issued (snd (helper request h expected schema retryCount))])"
  using attempting_console_output [of request "request_of h" expected schema 0]
  by (simp add: helper_attempting)

theorem one_line_per_differing_attempt_witness:
  "console_output (snd (helper flaky_executor (GetAPI ''/user/login'' None None) 200
          (literal_message_schema ''12345'') None)) =
     [''Attempt 1 failed. Retrying for /user/login...'',
      ''Attempt 2 failed. Retrying for /user/login...'']"
proof -
  have issued: "requests_issued (snd (helper flaky_executor (GetAPI ''/user/login'' None None)
      200 (literal_message_schema ''12345'') None)) = 3"
    unfolding flaky_run by (simp add: requests_issued_def)
  have attempts: "filter (status_differs flaky_executor
      (request_of (GetAPI ''/user/login'' None None)) 200) [0..<3] = [0, 1]"
    by (simp add: status_differs_def flaky_executor_def respond_def upt_conv_Cons del: upt_Suc)
  from one_line_per_differing_attempt [of flaky_executor "GetAPI ''/user/login'' None None" 200
      "literal_message_schema ''12345''" None]
  show ?thesis
    unfolding issued attempts by (simp add: retry_message_texts)
qed

text \<open>
  \<^bold>\<open>C6\<close>. The attempt bound of a helper called without a retry count is 5: the helper
  behaves as when called with the retry count 5, it never issues more than 5 requests,
  and when the first five attempts all return a differing status code it issues exactly
  5 requests and then throws the error of exhaustion.
\<close>

theorem default_attempt_bound:
  "helper request h expected schema None = helper request h expected schema (Some 5) \<and>
   requests_issued (snd (helper request h expected schema None)) \<le> 5 \<and>
   ((\<forall>j<5. status_differs request (request_of h) expected j) \<longrightarrow>
      requests_issued (snd (helper request h expected schema None)) = 5 \<and>
      fst (helper request h expected schema None) = Inl (Error max_retries_message))"
proof (intro conjI impI)
  show "helper request h expected schema None = helper request h expected schema (Some 5)"
    by (cases h) (simp_all add: getAPI_def postAPI_def putAPI_def deleteAPI_def)
  have run: "helper request h expected schema None =
      attempting request (request_of h) expected schema 0 5"
    by (simp add: helper_attempting attempt_bound_def)
  show "requests_issued (snd (helper request h expected schema None)) \<le> 5"
    unfolding run by (rule attempting_requests_le)
  assume "\<forall>j<5. status_differs request (request_of h) expected j"
  then have all: "\<forall>j<5. status_differs request (request_of h) expected (0 + j)"
    by simp
  from attempting_skip [OF all order_refl, of schema]
  show "requests_issued (snd (helper request h expected schema None)) = 5"
    and "fst (helper request h expected schema None) = Inl (Error max_retries_message)"
    unfolding run by (simp_all add: requests_issued_failed_attempts)
qed

theorem default_attempt_bound_witness:
  "status_differs not_found_executor (request_of (PostAPI ''/user'' ''body'')) 200 0 \<and>
   status_differs not_found_executor (request_of (PostAPI ''/user'' ''body'')) 200 1 \<and>
   status_differs not_found_executor (request_of (PostAPI ''/user'' ''body'')) 200 2 \<and>
   status_differs not_found_executor (request_of (PostAPI ''/user'' ''body'')) 200 3 \<and>
   status_differs not_found_executor (request_of (PostAPI ''/user'' ''body'')) 200 4 \<and>
   requests_issued (snd (helper not_found_executor (PostAPI ''/user'' ''body'') 200
       (literal_message_schema ''x'') None)) = 5 \<and>
   fst (helper not_found_executor (PostAPI ''/user'' ''body'') 200
       (literal_message_schema ''x'') None) = Inl (Error ''Max retries reached. API call failed.'')"
proof -
  have each: "status_differs not_found_executor (request_of (PostAPI ''/user'' ''body'')) 200 j"
    for j
    by (simp add: status_differs_def not_found_executor_def respond_def)
  then have h: "\<forall>j<5. status_differs not_found_executor
      (request_of (PostAPI ''/user'' ''body'')) 200 j"
    by simp
  from default_attempt_bound [of not_found_executor "PostAPI ''/user'' ''body''" 200
      "literal_message_schema ''x''"] h each
  show ?thesis unfolding max_retries_message_def by blast
qed

text \<open>
  \<^bold>\<open>C7\<close>. Each of \<^verbatim>\<open>getAPI\<close>, \<^verbatim>\<open>postAPI\<close>, \<^verbatim>\<open>putAPI\<close> and \<^verbatim>\<open>deleteAPI\<close> is the one operation
  of the specification, at the request it sends: GET with the query parameters and
  headers, POST and PUT with the body, DELETE with neither. Result and events (requests,
  parsing, validation, diagnostic lines, errors) are those of the operation.
\<close>

theorem four_helpers_one_operation:
  "getAPI request url expected schema parameters headers retryCount =
     retryingVerifiedCall request
       (Get url (case parameters of None \<Rightarrow> [] | Some p \<Rightarrow> p)
          (case headers of None \<Rightarrow> [] | Some h \<Rightarrow> h)) expected schema retryCount \<and>
   postAPI request url requestBody expected schema retryCount =
     retryingVerifiedCall request (Post url requestBody) expected schema retryCount \<and>
   putAPI request url requestBody expected schema retryCount =
     retryingVerifiedCall request (Put url requestBody) expected schema retryCount \<and>
   deleteAPI request url expected schema retryCount =
     retryingVerifiedCall request (Delete url) expected schema retryCount"
  by (simp add: getAPI_def postAPI_def putAPI_def deleteAPI_def retryingVerifiedCall_def
      getAPI_loop_attempting postAPI_loop_attempting putAPI_loop_attempting
      deleteAPI_loop_attempting)

text \<open>
  \<^bold>\<open>C8\<close>. If the request of attempt \<open>k\<close> is rejected with an exception, the helper throws
  that exception; exactly \<open>k\<close> requests were issued, and the lines printed are those of
  the \<open>k - 1\<close> attempts before it.
\<close>

theorem executor_exception_propagates:
  assumes "1 \<le> k" and "int k \<le> attempt_bound retryCount"
    and "\<forall>j<k - 1. status_differs request (request_of h) expected j"
    and "request (k - 1) (request_of h) = Inl exn"
  shows "fst (helper request h expected schema retryCount) = Inl (ExecutorError exn) \<and>
         requests_issued (snd (helper request h expected schema retryCount)) = k \<and>
         console_output (snd (helper request h expected schema retryCount)) =
           map (\<lambda>j. retry_message j (call_url (request_of h))) [0..<k - 1]"
  using assms(1,4)
  by (simp add: helper_attempting attempting_reaches [OF assms(1-3)]
      requests_issued_append requests_issued_failed_attempts
      console_output_append console_output_failed_attempts)
    (simp add: requests_issued_def console_output_def)

theorem executor_exception_propagates_witness:
  "(1::nat) \<le> 2 \<and> int 2 \<le> attempt_bound None \<and>
   status_differs dropping_executor (request_of (PutAPI ''/user'' ''body'')) 200 0 \<and>
   dropping_executor (2 - 1) (request_of (PutAPI ''/user'' ''body'')) = Inl ''ECONNRESET'' \<and>
   fst (helper dropping_executor (PutAPI ''/user'' ''body'') 200
          (literal_message_schema ''12345'') None) = Inl (ExecutorError ''ECONNRESET'') \<and>
   requests_issued (snd (helper dropping_executor (PutAPI ''/user'' ''body'') 200
          (literal_message_schema ''12345'') None)) = 2 \<and>
   console_output (snd (helper dropping_executor (PutAPI ''/user'' ''body'') 200
          (literal_message_schema ''12345'') None)) = [retry_message 0 ''/user'']"
proof -
  have h1: "(1::nat) \<le> 2" by simp
  have h2: "int 2 \<le> attempt_bound None" by (simp add: attempt_bound_def)
  have h3: "\<forall>j<2 - 1. status_differs dropping_executor
      (request_of (PutAPI ''/user'' ''body'')) 200 j"
    by (simp add: status_differs_def dropping_executor_def respond_def)
  have h4: "dropping_executor (2 - 1) (request_of (PutAPI ''/user'' ''body'')) = Inl ''ECONNRESET''"
    by (simp add: dropping_executor_def)
  from executor_exception_propagates [where k = 2 and request = dropping_executor
      and schema = "literal_message_schema ''12345''", OF h1 h2 h3 h4]
    h1 h2 h3 h4
  show ?thesis by simp
qed

text \<open>
  \<^bold>\<open>C9\<close>. For every retry count \<open>N \<le> 0\<close> a helper issues no request, prints no line and
  throws the error of exhaustion, whose message \<^verbatim>\<open>Max retries reached. API call failed.\<close>
  begins with the words \<^verbatim>\<open>Max retries reached\<close>.
\<close>

theorem nonpositive_retryCount:
  assumes "N \<le> 0"
  shows "helper request h expected schema (Some N) = (Inl (Error max_retries_message), []) \<and>
         prefix ''Max retries reached'' max_retries_message \<and>
         requests_issued (snd (helper request h expected schema (Some N))) = 0 \<and>
         console_output (snd (helper request h expected schema (Some N))) = []"
  using assms
  by (simp add: helper_attempting attempt_bound_def requests_issued_def console_output_def)
    (simp add: max_retries_message_def)

theorem nonpositive_retryCount_witness:
  "(- 3 :: int) \<le> 0 \<and>
   helper flaky_executor (GetAPI ''/user/login'' None None) 200
     (literal_message_schema ''12345'') (Some (- 3)) =
     (Inl (Error ''Max retries reached. API call failed.''), [])"
  using nonpositive_retryCount [of "- 3" flaky_executor "GetAPI ''/user/login'' None None" 200
      "literal_message_schema ''12345''"]
  by (simp add: max_retries_message_def)

text \<open>
  \<^bold>\<open>C10\<close>. When \<^verbatim>\<open>faker.number.int\<close> keeps to the range it is given, for every integer \<open>n\<close>
  the array that \<^verbatim>\<open>createRandomUsersRequestBody(n)\<close> returns has exactly \<open>max n 0\<close> users
  (it is empty for \<open>n \<le> 0\<close>), and every user has an id between 1 and 100000, a
  \<open>userStatus\<close> between 0 and 10 and a username that begins with
  \<^verbatim>\<open>TestUserName-test-automation-delete-me-\<close>.
\<close>

theorem createRandomUsersRequestBody_users:
  assumes "number_int_in_range fk"
  shows "int (length (fst (createRandomUsersRequestBody fk n s))) = max n 0 \<and>
         (n \<le> 0 \<longrightarrow> fst (createRandomUsersRequestBody fk n s) = []) \<and>
         (\<forall>u \<in> set (fst (createRandomUsersRequestBody fk n s)).
            1 \<le> id_field u \<and> id_field u \<le> 100000 \<and>
            0 \<le> userStatus u \<and> userStatus u \<le> 10 \<and>
            prefix ''TestUserName-test-automation-delete-me-'' (username u))"
proof (intro conjI ballI impI)
  show len: "int (length (fst (createRandomUsersRequestBody fk n s))) = max n 0"
    by (simp add: createRandomUsersRequestBody_def createRandomUsers_loop_length)
  show "fst (createRandomUsersRequestBody fk n s) = []" if "n \<le> 0"
    using that
    by (simp add: createRandomUsersRequestBody_def createRandomUsers_loop.simps [of fk n 0])
  fix u
  assume "u \<in> set (fst (createRandomUsersRequestBody fk n s))"
  then obtain t where u: "u = fst (userRequestBody fk t)"
    using createRandomUsers_loop_elements [of u fk n 0 "[]" s]
    by (auto simp: createRandomUsersRequestBody_def)
  from userRequestBody_fields [OF assms, of t]
  show "1 \<le> id_field u" "id_field u \<le> 100000" "0 \<le> userStatus u" "userStatus u \<le> 10"
    "prefix ''TestUserName-test-automation-delete-me-'' (username u)"
    unfolding u username_prefix_def by simp_all
qed

theorem createRandomUsersRequestBody_users_witness:
  "number_int_in_range counting_faker \<and>
   int (length (fst (createRandomUsersRequestBody counting_faker 2 0))) = 2 \<and>
   list_all
     (\<lambda>u. 1 \<le> id_field u \<and> id_field u \<le> 100000 \<and>
        0 \<le> userStatus u \<and> userStatus u \<le> 10 \<and>
        prefix ''TestUserName-test-automation-delete-me-'' (username u))
     (fst (createRandomUsersRequestBody counting_faker 2 0)) \<and>
   fst (createRandomUsersRequestBody counting_faker (- 1) 0) = []"
  using createRandomUsersRequestBody_users [OF counting_faker_in_range, of 2 0]
    createRandomUsersRequestBody_users [OF counting_faker_in_range, of "- 1" 0]
    counting_faker_in_range
  by (simp add: list_all_iff)

end
